theory Spec2Isabelle
  imports Complex_Main "HOL-Library.Sublist"
begin

section \<open>Python values, strings and dictionaries\<close>

text \<open>Python's \<open>needle in haystack\<close> on strings: the needle occurs as a contiguous block.\<close>

fun str_contains :: "string \<Rightarrow> string \<Rightarrow> bool" where
  "str_contains needle [] = (needle = [])"
| "str_contains needle (c # cs) = (prefix needle (c # cs) \<or> str_contains needle cs)"

text \<open>
  \<open>d.get(key, default)\<close> on a dictionary kept as an association list (the first binding
  of a key is the one that counts).
\<close>

definition dict_get :: "('k \<times> 'v) list \<Rightarrow> 'k \<Rightarrow> 'v \<Rightarrow> 'v" where
  "dict_get d key dflt = (case map_of d key of None \<Rightarrow> dflt | Some v \<Rightarrow> v)"

text \<open>
  The Python values that \<open>json.loads\<close> produces, which are also the values a field
  annotated \<open>Any\<close> holds in what follows. A JSON number is an \<open>int\<close> or a \<open>float\<close> in
  Python; floats are rationals here (no NaN, no infinities).
\<close>

datatype json =
    JNull
  | JBool bool
  | JInt int
  | JFloat rat
  | JStr string
  | JArr "json list"
  | JObj "(string \<times> json) list"

text \<open>The exceptions that can leave the functions modelled below.\<close>

datatype exn =
    ValueError string
  | AttributeError
  | TypeError
  | OverflowError

text \<open>
  \<open>value.get(key, default)\<close> on an arbitrary JSON value: only a dictionary has the method,
  anything else raises \<open>AttributeError\<close>.
\<close>

fun py_get :: "json \<Rightarrow> string \<Rightarrow> json \<Rightarrow> exn + json" where
  "py_get (JObj d) key dflt = Inr (dict_get d key dflt)"
| "py_get _ key dflt = Inl AttributeError"

text \<open>
  \<open>needle in value\<close> for a string needle and an arbitrary value: a substring test on a
  string, membership in a list, key membership in a dictionary; \<open>None\<close>, booleans and
  numbers are not iterable and raise \<open>TypeError\<close>.
\<close>

fun py_in :: "string \<Rightarrow> json \<Rightarrow> exn + bool" where
  "py_in needle (JStr s) = Inr (str_contains needle s)"
| "py_in needle (JArr xs) = Inr (JStr needle \<in> set xs)"
| "py_in needle (JObj d) = Inr (needle \<in> fst ` set d)"
| "py_in needle _ = Inl TypeError"

section \<open>Result types (graders/common.py, run\_eval.py)\<close>

text \<open>
  The dataclasses of the evaluation runner, field by field. Python floats are modelled by
  rationals: a quotient or a weighted sum below is the exact value, not its rounding to a
  double. \<open>details\<close> is \<open>dict[str, Any]\<close>.
\<close>

record GraderResult =
  name :: string
  passed :: bool
  message :: string
  details :: "(string \<times> json) list"

record TestCase =
  tc_id :: string
  prompt :: string
  scaffold :: string
  expected_checks :: "string list"
  should_trigger :: bool
  tc_notes :: string

text \<open>
  \<open>EvalResult\<close>: the fields \<open>agent_output\<close> and \<open>rubric_score\<close> are carried along by the
  runner and never read by the two derived properties; they are left out of the record.
  \<open>error\<close> is \<open>str | None\<close>.
\<close>

record EvalResult =
  test_case :: TestCase
  grader_results :: "GraderResult list"
  duration_seconds :: rat
  error :: "string option"

subsection \<open>EvalResult.passed\<close>

text \<open>
  \<open>if self.error:\<close> is Python truthiness on \<open>str | None\<close>: \<open>None\<close> and the empty string are
  both false.
\<close>

definition truthy_error :: "string option \<Rightarrow> bool" where
  "truthy_error e = (case e of None \<Rightarrow> False | Some s \<Rightarrow> s \<noteq> [])"

text \<open>
  The loop \<open>for result in self.grader_results\<close> with its early \<open>return False\<close>;
  \<open>expected\<close> is \<open>set(self.test_case.expected_checks)\<close>.
\<close>

fun passed_loop :: "string set \<Rightarrow> GraderResult list \<Rightarrow> bool" where
  "passed_loop expected [] = True"
| "passed_loop expected (result # rest) =
     (if name result \<in> expected \<and> \<not> passed result then False
      else passed_loop expected rest)"

definition EvalResult_passed :: "EvalResult \<Rightarrow> bool" where
  "EvalResult_passed self =
     (if truthy_error (error self) then False
      else if \<not> should_trigger (test_case self) then True
      else passed_loop (set (expected_checks (test_case self))) (grader_results self))"

text \<open>
  The result \<open>evaluate_test_case\<close> returns from its \<open>except Exception as e\<close> branch:
  no grader results, and \<open>str(e)\<close> as the error, which is the empty string for an exception
  raised without a message.
\<close>

definition error_result :: "TestCase \<Rightarrow> rat \<Rightarrow> string \<Rightarrow> EvalResult" where
  "error_result tc duration msg =
     \<lparr>test_case = tc, grader_results = [], duration_seconds = duration, error = Some msg\<rparr>"

subsection \<open>EvalResult.score\<close>

text \<open>
  \<open>sum(1 for r in self.grader_results if r.passed)\<close>: the generator yields a 1 for each
  passing result and \<open>sum\<close> adds them up from 0, left to right.
\<close>

definition sum_passing :: "GraderResult list \<Rightarrow> int" where
  "sum_passing rs = foldl (\<lambda>acc r. if passed r then acc + 1 else acc) 0 rs"

definition EvalResult_score :: "EvalResult \<Rightarrow> rat" where
  "EvalResult_score self =
     (if grader_results self = [] then 0
      else of_int (sum_passing (grader_results self))
             / of_nat (length (grader_results self)))"


section \<open>The judge: LLMJudge.\_parse\_response (run\_eval.py)\<close>

record RubricScore =
  security_practices :: json
  user_consent :: json
  framework_alignment :: json
  instruction_following :: json
  overall_notes :: json
  weighted_score :: rat

text \<open>
  \<open>re.search(r'\{[\s\S]*\}', response_text)\<close>: the class \<open>[\s\S]\<close> is every character and the
  star is greedy, so the leftmost match starts at the first opening brace and runs to the
  last closing brace of the text; there is no match when no closing brace follows the
  first opening one. \<open>json_match\<close> returns \<open>json_match.group()\<close>.
\<close>

definition json_match :: "string \<Rightarrow> string option" where
  "json_match response_text =
     (let from_open = dropWhile (\<lambda>c. c \<noteq> CHR ''{'') response_text;
          to_close = rev (dropWhile (\<lambda>c. c \<noteq> CHR ''}'') (rev from_open))
      in if from_open = [] \<or> to_close = [] then None else Some to_close)"

text \<open>
  \<open>score * weight\<close> with a float weight. An \<open>int\<close> (or \<open>bool\<close>) is converted to a float
  first, which raises \<open>OverflowError\<close> from \<open>2^1024 - 2^970\<close> on; strings, lists,
  dictionaries and \<open>None\<close> raise \<open>TypeError\<close>.
\<close>

definition float_int_limit :: int where
  "float_int_limit = 2 ^ 1024 - 2 ^ 970"

fun py_times_weight :: "json \<Rightarrow> rat \<Rightarrow> exn + rat" where
  "py_times_weight (JInt i) weight =
     (if float_int_limit \<le> \<bar>i\<bar> then Inl OverflowError else Inr (of_int i * weight))"
| "py_times_weight (JBool b) weight = Inr ((if b then 1 else 0) * weight)"
| "py_times_weight (JFloat x) weight = Inr (x * weight)"
| "py_times_weight _ weight = Inl TypeError"

definition weights :: "(string \<times> rat) list" where
  "weights =
     [(''security_practices'', 30 / 100),
      (''user_consent'', 25 / 100),
      (''framework_alignment'', 25 / 100),
      (''instruction_following'', 20 / 100)]"

text \<open>One element of the generator: \<open>data.get(dim, {}).get("score", 3) * weight\<close>.\<close>

definition weighted_term :: "json \<Rightarrow> string \<Rightarrow> rat \<Rightarrow> exn + rat" where
  "weighted_term data dim_name weight =
     (case py_get data dim_name (JObj []) of
        Inl e \<Rightarrow> Inl e
      | Inr entry \<Rightarrow>
          (case py_get entry ''score'' (JInt 3) of
             Inl e \<Rightarrow> Inl e
           | Inr score \<Rightarrow> py_times_weight score weight))"

text \<open>\<open>sum(...)\<close> over \<open>weights.items()\<close>, in insertion order; the first exception ends it.\<close>

fun sum_terms :: "json \<Rightarrow> (string \<times> rat) list \<Rightarrow> rat \<Rightarrow> exn + rat" where
  "sum_terms data [] acc = Inr acc"
| "sum_terms data ((dim_name, weight) # rest) acc =
     (case weighted_term data dim_name weight of
        Inl e \<Rightarrow> Inl e
      | Inr x \<Rightarrow> sum_terms data rest (acc + x))"

definition parse_error_entry :: json where
  "parse_error_entry = JObj [(''score'', JInt 3), (''reasoning'', JStr ''Parse error'')]"

definition default_entry :: json where
  "default_entry = JObj [(''score'', JInt 3), (''reasoning'', JStr [])]"

text \<open>The \<open>RubricScore\<close> of the \<open>except json.JSONDecodeError as e\<close> branch; \<open>msg\<close> is \<open>str(e)\<close>.\<close>

definition fallback_score :: "string \<Rightarrow> RubricScore" where
  "fallback_score msg =
     \<lparr>security_practices = parse_error_entry,
      user_consent = parse_error_entry,
      framework_alignment = parse_error_entry,
      instruction_following = parse_error_entry,
      overall_notes = JStr (''Failed to parse LLM response: '' @ msg),
      weighted_score = 3\<rparr>"

text \<open>
  The part of \<open>_parse_response\<close> after the \<open>try\<close> block, on the parsed \<open>data\<close>.
\<close>

definition score_from_data :: "json \<Rightarrow> exn + RubricScore" where
  "score_from_data data =
     (case sum_terms data weights 0 of
        Inl e \<Rightarrow> Inl e
      | Inr weighted \<Rightarrow>
     (case py_get data ''security_practices'' default_entry of
        Inl e \<Rightarrow> Inl e
      | Inr sp \<Rightarrow>
     (case py_get data ''user_consent'' default_entry of
        Inl e \<Rightarrow> Inl e
      | Inr uc \<Rightarrow>
     (case py_get data ''framework_alignment'' default_entry of
        Inl e \<Rightarrow> Inl e
      | Inr fa \<Rightarrow>
     (case py_get data ''instruction_following'' default_entry of
        Inl e \<Rightarrow> Inl e
      | Inr instr \<Rightarrow>
     (case py_get data ''overall_notes'' (JStr []) of
        Inl e \<Rightarrow> Inl e
      | Inr notes_value \<Rightarrow>
          Inr \<lparr>security_practices = sp,
               user_consent = uc,
               framework_alignment = fa,
               instruction_following = instr,
               overall_notes = notes_value,
               weighted_score = weighted\<rparr>))))))"

text \<open>
  \<open>_parse_response\<close>. \<open>json.loads\<close> belongs to the standard library and is a parameter:
  \<open>loads s\<close> is \<open>Inr\<close> of the parsed value, or \<open>Inl\<close> of the message of the
  \<open>JSONDecodeError\<close> it raises. The \<open>ValueError\<close> raised inside the \<open>try\<close> block is not a
  \<open>JSONDecodeError\<close> (the subclass relation goes the other way), so the \<open>except\<close> clause
  does not catch it and it leaves the function.
\<close>

definition parse_response :: "(string \<Rightarrow> string + json) \<Rightarrow> string \<Rightarrow> exn + RubricScore" where
  "parse_response loads response_text =
     (case json_match response_text of
        None \<Rightarrow> Inl (ValueError ''No JSON found in response'')
      | Some matched \<Rightarrow>
          (case loads matched of
             Inl msg \<Rightarrow> Inr (fallback_score msg)
           | Inr data \<Rightarrow> score_from_data data))"

text \<open>
  The numeric value a score multiplies the weight with, for the scores on which the
  product is defined.
\<close>

fun score_value :: "json \<Rightarrow> rat option" where
  "score_value (JInt i) = (if float_int_limit \<le> \<bar>i\<bar> then None else Some (of_int i))"
| "score_value (JBool b) = Some (if b then 1 else 0)"
| "score_value (JFloat x) = Some x"
| "score_value _ = None"

text \<open>
  What \<open>data.get(dim, {}).get("score", 3)\<close> is worth on a dictionary \<open>d\<close>: 3 for a missing
  dimension and for an entry without a score.
\<close>

definition dim_score :: "(string \<times> json) list \<Rightarrow> string \<Rightarrow> rat option" where
  "dim_score d dim_name =
     (case map_of d dim_name of
        None \<Rightarrow> Some 3
      | Some (JObj entry) \<Rightarrow> score_value (dict_get entry ''score'' (JInt 3))
      | Some _ \<Rightarrow> None)"

text \<open>
  The value of \<open>json.loads\<close> on the three texts used as examples below (the last one
  raises \<open>JSONDecodeError\<close> with the message given). Every other text is outside the
  table and no example depends on it.
\<close>

definition text_one_dim :: string where
  "text_one_dim = ''{\"security_practices\": {\"score\": 5, \"reasoning\": \"ok\"}, \"weighted_score\": 1}''"

definition text_bad_dim :: string where
  "text_bad_dim = ''{\"user_consent\": 5}''"

definition text_not_json :: string where
  "text_not_json = ''{score: 4}''"

definition loads_table :: "string \<Rightarrow> string + json" where
  "loads_table s =
     (if s = text_one_dim then
        Inr (JObj [(''security_practices'',
                      JObj [(''score'', JInt 5), (''reasoning'', JStr ''ok'')]),
                   (''weighted_score'', JInt 1)])
      else if s = text_bad_dim then Inr (JObj [(''user_consent'', JInt 5)])
      else if s = text_not_json then
        Inl ''Expecting property name enclosed in double quotes: line 1 column 2 (char 1)''
      else Inl ''(not in the table)'')"

section \<open>The trace grader: check\_callbacks\_configured (graders/auth0\_quickstart.py)\<close>

text \<open>
  \<open>ExecutionTrace\<close>. \<open>commands\<close> is annotated \<open>list[dict[str, Any]]\<close>, and nothing enforces
  the annotation: \<open>from_dict\<close> stores whatever list it is given, and in agent mode
  \<open>evaluate_test_case\<close> passes \<open>agent_output.commands_executed\<close>, a list of plain strings.
  A command is therefore an arbitrary value.
\<close>

record ExecutionTrace =
  commands :: "json list"
  files_modified :: "string list"
  files_created :: "string list"
  env_vars_set :: "(string \<times> string) list"
  outputs :: "string list"

text \<open>
  The loop \<open>for cmd in self.trace.commands\<close>. \<open>cmd.get("command", "")\<close> raises
  \<open>AttributeError\<close> on a command that is not a dictionary, and the three \<open>in\<close> tests raise
  \<open>TypeError\<close> on a command entry that is not iterable; nothing catches either. The first
  command whose entry contains \<open>auth0 apps create\<close> decides, every branch under it
  returns; the result after the loop is the one of the empty list.
\<close>

fun callbacks_loop :: "json list \<Rightarrow> exn + GraderResult" where
  "callbacks_loop [] =
     Inr \<lparr>name = ''callbacks_configured'', passed = False,
          message = ''auth0 apps create command not found'', details = []\<rparr>"
| "callbacks_loop (cmd # rest) =
     (case py_get cmd ''command'' (JStr []) of
        Inl e \<Rightarrow> Inl e
      | Inr cmd_str \<Rightarrow>
     (case py_in ''auth0 apps create'' cmd_str of
        Inl e \<Rightarrow> Inl e
      | Inr False \<Rightarrow> callbacks_loop rest
      | Inr True \<Rightarrow>
     (case py_in ''--callbacks'' cmd_str of
        Inl e \<Rightarrow> Inl e
      | Inr has_callbacks \<Rightarrow>
     (case py_in ''--logout-urls'' cmd_str of
        Inl e \<Rightarrow> Inl e
      | Inr has_logout \<Rightarrow>
          if has_callbacks \<and> has_logout then
            Inr \<lparr>name = ''callbacks_configured'', passed = True,
                 message = ''Callback and logout URLs configured'',
                 details = [(''command'', cmd_str)]\<rparr>
          else if has_callbacks then
            Inr \<lparr>name = ''callbacks_configured'', passed = False,
                 message = ''Callback URLs configured but logout URLs missing'',
                 details = []\<rparr>
          else
            Inr \<lparr>name = ''callbacks_configured'', passed = False,
                 message = ''Callback URLs not configured'', details = []\<rparr>))))"

definition check_callbacks_configured :: "ExecutionTrace \<Rightarrow> exn + GraderResult" where
  "check_callbacks_configured trace = callbacks_loop (commands trace)"

text \<open>
  The text of a command that is a record: a dictionary whose \<open>"command"\<close> entry is a string
  or is missing (then the text is empty). Any other command has no text.
\<close>

fun command_text :: "json \<Rightarrow> string option" where
  "command_text (JObj d) =
     (case dict_get d ''command'' (JStr []) of JStr s \<Rightarrow> Some s | _ \<Rightarrow> None)"
| "command_text _ = None"

text \<open>Whether a command is a creation command, and whether it carries a flag.\<close>

definition is_create :: "json \<Rightarrow> bool" where
  "is_create cmd =
     (case command_text cmd of
        None \<Rightarrow> False
      | Some s \<Rightarrow> str_contains ''auth0 apps create'' s)"

definition has_flag :: "string \<Rightarrow> json \<Rightarrow> bool" where
  "has_flag flag cmd =
     (case command_text cmd of None \<Rightarrow> False | Some s \<Rightarrow> str_contains flag s)"

text \<open>A trace of records with the given command texts, and nothing else.\<close>

definition trace_of :: "string list \<Rightarrow> ExecutionTrace" where
  "trace_of texts =
     \<lparr>commands = map (\<lambda>t. JObj [(''command'', JStr t)]) texts, files_modified = [],
      files_created = [], env_vars_set = [], outputs = []\<rparr>"

text \<open>
  The trace \<open>evaluate_test_case\<close> builds in agent mode from the commands extracted from the
  agent's output and the raw output: the commands are the extracted strings themselves.
\<close>

definition agent_trace :: "string list \<Rightarrow> string \<Rightarrow> ExecutionTrace" where
  "agent_trace commands_executed raw_output =
     \<lparr>commands = map JStr commands_executed, files_modified = [],
      files_created = [], env_vars_set = [], outputs = [raw_output]\<rparr>"

section \<open>Report analytics: compare\_reports and merge\_scores (run\_eval.py)\<close>

text \<open>
  A persisted report, as \<open>json.load\<close> returns it. The keys read with \<open>report["..."]\<close> are
  fields; the keys read with \<open>report.get("...", default)\<close> are optional, \<open>None\<close> standing
  for a missing key. The same holds for a row of \<open>"results"\<close>.
\<close>

record ResultRow =
  test_case_id :: string
  row_passed :: "bool option"
  row_score :: "rat option"

record Report =
  rep_skill :: "string option"
  rep_mode :: "string option"
  rep_timestamp :: string
  rep_pass_rate :: rat
  rep_avg_score :: "rat option"
  rep_total_tests :: nat
  rep_results :: "ResultRow list option"

subsection \<open>compare\_reports\<close>

text \<open>\<open>report.get("results", [])\<close>.\<close>

definition results_of :: "Report \<Rightarrow> ResultRow list" where
  "results_of report = (case rep_results report of None \<Rightarrow> [] | Some rows \<Rightarrow> rows)"

text \<open>
  \<open>{r["test_case_id"]: r for r in rows}\<close>: a later row replaces an earlier one with the
  same id.
\<close>

definition by_test_id :: "ResultRow list \<Rightarrow> (string \<rightharpoonup> ResultRow)" where
  "by_test_id rows = foldl (\<lambda>m r. m(test_case_id r \<mapsto> r)) Map.empty rows"

text \<open>
  \<open>results.get(test_id, {}).get("passed", False)\<close> and
  \<open>results.get(test_id, {}).get("score", 0)\<close>: a missing id gives the empty dictionary and so
  the defaults.
\<close>

definition passed_in :: "(string \<rightharpoonup> ResultRow) \<Rightarrow> string \<Rightarrow> bool" where
  "passed_in results test_id =
     (case results test_id of
        None \<Rightarrow> False
      | Some r \<Rightarrow> (case row_passed r of None \<Rightarrow> False | Some b \<Rightarrow> b))"

definition score_in :: "(string \<rightharpoonup> ResultRow) \<Rightarrow> string \<Rightarrow> rat" where
  "score_in results test_id =
     (case results test_id of
        None \<Rightarrow> 0
      | Some r \<Rightarrow> (case row_score r of None \<Rightarrow> 0 | Some x \<Rightarrow> x))"

record Change =
  change_test_case_id :: string
  was_passing :: bool
  now_passing :: bool
  score_delta :: rat
  change :: string

text \<open>The body of the loop over the ids: the entry appended for \<open>test_id\<close>, if any.\<close>

definition change_for ::
  "(string \<rightharpoonup> ResultRow) \<Rightarrow> (string \<rightharpoonup> ResultRow) \<Rightarrow> string \<Rightarrow> Change option" where
  "change_for results_a results_b test_id =
     (let a_passed = passed_in results_a test_id;
          b_passed = passed_in results_b test_id;
          a_score = score_in results_a test_id;
          b_score = score_in results_b test_id
      in if a_passed \<noteq> b_passed \<or> \<bar>a_score - b_score\<bar> > 1 / 10 then
           Some \<lparr>change_test_case_id = test_id,
                 was_passing = a_passed,
                 now_passing = b_passed,
                 score_delta = b_score - a_score,
                 change = (if b_passed \<and> \<not> a_passed then ''improved''
                           else if \<not> b_passed \<and> a_passed then ''regressed''
                           else ''score_change'')\<rparr>
         else None)"

text \<open>
  The ids are \<open>set(results_a.keys()) | set(results_b.keys())\<close>. Python does not fix the
  order in which a set is iterated; the list below visits each id once, in order of first
  appearance, and the theorems speak of membership in \<open>changes\<close> only.
\<close>

definition test_ids :: "Report \<Rightarrow> Report \<Rightarrow> string list" where
  "test_ids report_a report_b =
     remdups (map test_case_id (results_of report_a) @ map test_case_id (results_of report_b))"

definition changes_of :: "Report \<Rightarrow> Report \<Rightarrow> Change list" where
  "changes_of report_a report_b =
     List.map_filter
       (change_for (by_test_id (results_of report_a)) (by_test_id (results_of report_b)))
       (test_ids report_a report_b)"

text \<open>
  The comparison returned. The two sub-dictionaries \<open>"report_a"\<close> and \<open>"report_b"\<close>, which
  echo path, timestamp, mode, pass rate and average score of the inputs, are not part of
  the record.
\<close>

record Comparison =
  pass_rate_delta :: rat
  avg_score_delta :: rat
  improved :: bool
  regressed :: bool
  changes :: "Change list"

definition avg_score_of :: "Report \<Rightarrow> rat" where
  "avg_score_of report = (case rep_avg_score report of None \<Rightarrow> 0 | Some x \<Rightarrow> x)"

definition compare_reports :: "Report \<Rightarrow> Report \<Rightarrow> Comparison" where
  "compare_reports report_a report_b =
     \<lparr>pass_rate_delta = rep_pass_rate report_b - rep_pass_rate report_a,
      avg_score_delta = avg_score_of report_b - avg_score_of report_a,
      improved = (rep_pass_rate report_b > rep_pass_rate report_a),
      regressed = (rep_pass_rate report_b < rep_pass_rate report_a),
      changes = changes_of report_a report_b\<rparr>"

subsection \<open>merge\_scores\<close>

record LeaderboardEntry =
  skill :: string
  mode :: string
  pass_rate :: rat
  avg_score :: rat
  total_tests :: nat
  timestamp :: string

definition mode_of :: "Report \<Rightarrow> string" where
  "mode_of report = (case rep_mode report of None \<Rightarrow> ''unknown'' | Some m \<Rightarrow> m)"

definition skill_of :: "Report \<Rightarrow> string" where
  "skill_of report = (case rep_skill report of None \<Rightarrow> ''unknown'' | Some s \<Rightarrow> s)"

text \<open>\<open>key = f"{skill}-{mode}"\<close>.\<close>

definition key_of :: "Report \<Rightarrow> string" where
  "key_of report = skill_of report @ ''-'' @ mode_of report"

definition entry_of :: "Report \<Rightarrow> LeaderboardEntry" where
  "entry_of report =
     \<lparr>skill = skill_of report,
      mode = mode_of report,
      pass_rate = rep_pass_rate report,
      avg_score = avg_score_of report,
      total_tests = rep_total_tests report,
      timestamp = rep_timestamp report\<rparr>"

text \<open>
  The loop over \<open>score_files\<close>, on the reports read from them. \<open>all_results\<close> is a
  dictionary, which keeps its keys in insertion order: an association list that grows at
  the end.
\<close>

fun merge_loop ::
  "Report list \<Rightarrow> (string \<times> LeaderboardEntry) list \<Rightarrow> (string \<times> LeaderboardEntry) list" where
  "merge_loop [] all_results = all_results"
| "merge_loop (report # rest) all_results =
     (if map_of all_results (key_of report) = None
      then merge_loop rest (all_results @ [(key_of report, entry_of report)])
      else merge_loop rest all_results)"

text \<open>
  \<open>sorted(all_results.values(), key=lambda x: x["avg_score"], reverse=True)\<close>: descending,
  and stable (entries with equal scores keep their order), which is a stable ascending
  sort on the negated score.
\<close>

definition merge_scores :: "Report list \<Rightarrow> LeaderboardEntry list" where
  "merge_scores reports =
     sort_key (\<lambda>x. - avg_score x) (map snd (merge_loop reports []))"

definition entry_key :: "LeaderboardEntry \<Rightarrow> string" where
  "entry_key e = skill e @ ''-'' @ mode e"

definition report_named :: "string \<Rightarrow> string \<Rightarrow> rat \<Rightarrow> Report" where
  "report_named s m avg =
     \<lparr>rep_skill = Some s, rep_mode = Some m, rep_timestamp = ''20250101-000000'',
      rep_pass_rate = 1, rep_avg_score = Some avg, rep_total_tests = 1,
      rep_results = Some []\<rparr>"

text \<open>The modes an \<open>EvalReport\<close> is documented to carry (the comment on its \<open>mode\<close> field).\<close>

definition report_modes :: "string list" where
  "report_modes = [''dry-run'', ''baseline'', ''agent'']"

definition report_of_rows :: "ResultRow list \<Rightarrow> Report" where
  "report_of_rows rows =
     \<lparr>rep_skill = Some ''auth0-react'', rep_mode = Some ''dry-run'',
      rep_timestamp = ''20250101-000000'', rep_pass_rate = 0, rep_avg_score = Some 0,
      rep_total_tests = length rows, rep_results = Some rows\<rparr>"

section \<open>Properties of the derived results\<close>

lemma passed_loop_iff:
  "passed_loop expected rs \<longleftrightarrow> (\<forall>g \<in> set rs. name g \<in> expected \<longrightarrow> passed g)"
  by (induction rs) auto

lemma passed_loop_filter:
  "passed_loop expected (filter (\<lambda>g. name g \<in> expected) rs) = passed_loop expected rs"
  by (auto simp add: passed_loop_iff)

lemma foldl_passing_shift:
  "foldl (\<lambda>acc r. if passed r then acc + 1 else acc) (k::int) rs
     = k + int (length (filter passed rs))"
  by (induction rs arbitrary: k) auto

lemma sum_passing_count: "sum_passing rs = int (length (filter passed rs))"
  by (simp add: sum_passing_def foldl_passing_shift)


lemma failed_with_error_text:
  "msg \<noteq> [] \<Longrightarrow> \<not> EvalResult_passed (error_result tc duration msg)"
  by (simp add: error_result_def EvalResult_passed_def truthy_error_def)

text \<open>
  What \<open>passed\<close> computes, case by case, with the guard on the error field read as the
  code evaluates it; results named outside the expected checks never matter.
\<close>

lemma EvalResult_passed_cases:
  "EvalResult_passed r =
     (if error r \<noteq> None \<and> error r \<noteq> Some [] then False
      else if \<not> should_trigger (test_case r) then True
      else (\<forall>g \<in> set (grader_results r).
              name g \<in> set (expected_checks (test_case r)) \<longrightarrow> passed g))
   \<and> EvalResult_passed
         (r\<lparr>grader_results :=
              filter (\<lambda>g. name g \<in> set (expected_checks (test_case r))) (grader_results r)\<rparr>)
       = EvalResult_passed r"
proof (intro conjI)
  have guard: "truthy_error (error r) \<longleftrightarrow> error r \<noteq> None \<and> error r \<noteq> Some []"
    by (cases "error r") (simp_all add: truthy_error_def)
  show "EvalResult_passed r =
     (if error r \<noteq> None \<and> error r \<noteq> Some [] then False
      else if \<not> should_trigger (test_case r) then True
      else (\<forall>g \<in> set (grader_results r).
              name g \<in> set (expected_checks (test_case r)) \<longrightarrow> passed g))"
    using guard by (auto simp add: EvalResult_passed_def passed_loop_iff)
  show "EvalResult_passed
         (r\<lparr>grader_results :=
              filter (\<lambda>g. name g \<in> set (expected_checks (test_case r))) (grader_results r)\<rparr>)
       = EvalResult_passed r"
    by (simp add: EvalResult_passed_def passed_loop_filter)
qed

lemma EvalResult_passed_cases_example:
  "EvalResult_passed
     \<lparr>test_case = \<lparr>tc_id = ''t1'', prompt = ''add login'', scaffold = ''react'',
                    expected_checks = [''sdk_installed''], should_trigger = True,
                    tc_notes = []\<rparr>,
      grader_results =
        [\<lparr>name = ''sdk_installed'', passed = True, message = [], details = []\<rparr>,
         \<lparr>name = ''login_component'', passed = False, message = [], details = []\<rparr>],
      duration_seconds = 0, error = None\<rparr>
   \<and> \<not> EvalResult_passed
       \<lparr>test_case = \<lparr>tc_id = ''t1'', prompt = ''add login'', scaffold = ''react'',
                      expected_checks = [''sdk_installed''], should_trigger = True,
                      tc_notes = []\<rparr>,
        grader_results =
          [\<lparr>name = ''sdk_installed'', passed = True, message = [], details = []\<rparr>],
        duration_seconds = 0, error = Some ''Scaffold not found: react''\<rparr>"
  using EvalResult_passed_cases
          [of "\<lparr>test_case = \<lparr>tc_id = ''t1'', prompt = ''add login'', scaffold = ''react'',
                              expected_checks = [''sdk_installed''], should_trigger = True,
                              tc_notes = []\<rparr>,
                grader_results =
                  [\<lparr>name = ''sdk_installed'', passed = True, message = [], details = []\<rparr>,
                   \<lparr>name = ''login_component'', passed = False, message = [],
                    details = []\<rparr>],
                duration_seconds = 0, error = None\<rparr>"]
        EvalResult_passed_cases
          [of "\<lparr>test_case = \<lparr>tc_id = ''t1'', prompt = ''add login'', scaffold = ''react'',
                              expected_checks = [''sdk_installed''], should_trigger = True,
                              tc_notes = []\<rparr>,
                grader_results =
                  [\<lparr>name = ''sdk_installed'', passed = True, message = [], details = []\<rparr>],
                duration_seconds = 0, error = Some ''Scaffold not found: react''\<rparr>"]
  by simp

section \<open>Properties of the judge\<close>

lemma three_below_limit: "\<not> float_int_limit \<le> \<bar>3\<bar>"
  by (simp add: float_int_limit_def)

lemma py_times_weight_value:
  "py_times_weight v w = Inr x \<longleftrightarrow> (\<exists>s. score_value v = Some s \<and> x = s * w)"
  by (cases v) auto

lemma py_times_weight_undefined:
  "score_value v = None \<Longrightarrow> \<exists>e. py_times_weight v w = Inl e"
  by (cases v) (auto split: if_splits)

lemma weighted_term_Some:
  assumes "dim_score d dn = Some s"
  shows "weighted_term (JObj d) dn w = Inr (s * w)"
proof (cases "map_of d dn")
  case None
  with assms have "s = 3" by (simp add: dim_score_def)
  with None show ?thesis
    using three_below_limit by (simp add: weighted_term_def dict_get_def)
next
  case (Some entry)
  with assms obtain kv where entry: "entry = JObj kv"
    and val: "score_value (dict_get kv ''score'' (JInt 3)) = Some s"
    by (cases entry) (simp_all add: dim_score_def)
  from val have "py_times_weight (dict_get kv ''score'' (JInt 3)) w = Inr (s * w)"
    by (simp add: py_times_weight_value)
  with Some entry show ?thesis
    by (simp add: weighted_term_def dict_get_def)
qed

lemma weighted_term_None:
  assumes "dim_score d dn = None"
  shows "\<exists>e. weighted_term (JObj d) dn w = Inl e"
proof (cases "map_of d dn")
  case None
  with assms show ?thesis by (simp add: dim_score_def)
next
  case (Some entry)
  show ?thesis
  proof (cases entry)
    case (JObj kv)
    with Some assms have "score_value (dict_get kv ''score'' (JInt 3)) = None"
      by (simp add: dim_score_def)
    then obtain e where "py_times_weight (dict_get kv ''score'' (JInt 3)) w = Inl e"
      using py_times_weight_undefined by blast
    with Some JObj show ?thesis
      by (simp add: weighted_term_def dict_get_def)
  qed (use Some in \<open>simp_all add: weighted_term_def dict_get_def\<close>)
qed

lemma weighted_term_InrD:
  assumes "weighted_term (JObj d) dn w = Inr x"
  shows "\<exists>s. dim_score d dn = Some s \<and> x = s * w"
proof (cases "dim_score d dn")
  case None
  then show ?thesis using weighted_term_None[of d dn w] assms by auto
next
  case (Some s)
  then show ?thesis using weighted_term_Some[of d dn s w] assms by auto
qed

lemma sum_terms_not_dict:
  assumes "\<forall>d. data \<noteq> JObj d"
  shows "sum_terms data weights acc = Inl AttributeError"
  using assms by (cases data) (simp_all add: weights_def weighted_term_def)

lemma sum_terms_Some:
  assumes "dim_score d ''security_practices'' = Some s1"
    and "dim_score d ''user_consent'' = Some s2"
    and "dim_score d ''framework_alignment'' = Some s3"
    and "dim_score d ''instruction_following'' = Some s4"
  shows "sum_terms (JObj d) weights 0
           = Inr (s1 * (30 / 100) + s2 * (25 / 100) + s3 * (25 / 100) + s4 * (20 / 100))"
  using assms by (simp add: weights_def weighted_term_Some)

lemma sum_terms_InrD:
  assumes "sum_terms (JObj d) weights 0 = Inr x"
  shows "\<exists>s1 s2 s3 s4.
           dim_score d ''security_practices'' = Some s1 \<and>
           dim_score d ''user_consent'' = Some s2 \<and>
           dim_score d ''framework_alignment'' = Some s3 \<and>
           dim_score d ''instruction_following'' = Some s4 \<and>
           x = s1 * (30 / 100) + s2 * (25 / 100) + s3 * (25 / 100) + s4 * (20 / 100)"
proof -
  from assms obtain x1 x2 x3 x4 where
    t1: "weighted_term (JObj d) ''security_practices'' (30 / 100) = Inr x1" and
    t2: "weighted_term (JObj d) ''user_consent'' (25 / 100) = Inr x2" and
    t3: "weighted_term (JObj d) ''framework_alignment'' (25 / 100) = Inr x3" and
    t4: "weighted_term (JObj d) ''instruction_following'' (20 / 100) = Inr x4"
    by (auto simp: weights_def split: sum.splits)
  from weighted_term_InrD[OF t1] obtain s1
    where s1: "dim_score d ''security_practices'' = Some s1" by auto
  from weighted_term_InrD[OF t2] obtain s2
    where s2: "dim_score d ''user_consent'' = Some s2" by auto
  from weighted_term_InrD[OF t3] obtain s3
    where s3: "dim_score d ''framework_alignment'' = Some s3" by auto
  from weighted_term_InrD[OF t4] obtain s4
    where s4: "dim_score d ''instruction_following'' = Some s4" by auto
  note s = s1 s2 s3 s4
  with assms sum_terms_Some[OF s] show ?thesis by simp
qed

lemma score_from_data_dict:
  "score_from_data (JObj d) =
     (case sum_terms (JObj d) weights 0 of
        Inl e \<Rightarrow> Inl e
      | Inr weighted \<Rightarrow>
          Inr \<lparr>security_practices = dict_get d ''security_practices'' default_entry,
               user_consent = dict_get d ''user_consent'' default_entry,
               framework_alignment = dict_get d ''framework_alignment'' default_entry,
               instruction_following = dict_get d ''instruction_following'' default_entry,
               overall_notes = dict_get d ''overall_notes'' (JStr []),
               weighted_score = weighted\<rparr>)"
  by (simp add: score_from_data_def split: sum.splits)

lemma score_from_data_not_dict:
  assumes "\<forall>d. data \<noteq> JObj d"
  shows "score_from_data data = Inl AttributeError"
  using sum_terms_not_dict[OF assms] by (simp add: score_from_data_def)

lemma parse_response_no_match:
  "json_match response_text = None \<Longrightarrow>
     parse_response loads response_text = Inl (ValueError ''No JSON found in response'')"
  by (simp add: parse_response_def)

lemma parse_response_decode_error:
  assumes "json_match response_text = Some matched" and "loads matched = Inl msg"
  shows "parse_response loads response_text = Inr (fallback_score msg)"
  using assms by (simp add: parse_response_def)

lemma fallback_score_neutral:
  "weighted_score (fallback_score msg) = 3
   \<and> dict_get [(''score'', JInt 3), (''reasoning'', JStr ''Parse error'')] ''score'' JNull = JInt 3
   \<and> security_practices (fallback_score msg) = parse_error_entry
   \<and> user_consent (fallback_score msg) = parse_error_entry
   \<and> framework_alignment (fallback_score msg) = parse_error_entry
   \<and> instruction_following (fallback_score msg) = parse_error_entry
   \<and> overall_notes (fallback_score msg) = JStr (''Failed to parse LLM response: '' @ msg)"
  by (simp add: fallback_score_def dict_get_def)

lemma json_match_text_one_dim: "json_match text_one_dim = Some text_one_dim"
  by (simp add: json_match_def text_one_dim_def)

lemma json_match_text_bad_dim: "json_match text_bad_dim = Some text_bad_dim"
  by (simp add: json_match_def text_bad_dim_def)

lemma loads_table_one_dim:
  "loads_table text_one_dim
     = Inr (JObj [(''security_practices'',
                    JObj [(''score'', JInt 5), (''reasoning'', JStr ''ok'')]),
                  (''weighted_score'', JInt 1)])"
  by (simp add: loads_table_def)

lemma loads_table_bad_dim:
  "loads_table text_bad_dim = Inr (JObj [(''user_consent'', JInt 5)])"
  by (simp add: loads_table_def text_bad_dim_def text_one_dim_def)

lemma parse_response_one_dim_returns:
  "\<exists>r. parse_response loads_table text_one_dim = Inr r"
  by (simp add: parse_response_def json_match_text_one_dim loads_table_one_dim
        score_from_data_dict sum_terms_Some dim_score_def dict_get_def float_int_limit_def)

section \<open>Properties of the trace grader\<close>

text \<open>\<open>str_contains\<close> is the contiguous-sublist relation of the library.\<close>

lemma str_contains_sublist: "str_contains needle hay \<longleftrightarrow> sublist needle hay"
  by (induction hay) (auto simp: sublist_Cons_right)

lemma callbacks_loop_record:
  assumes "command_text cmd = Some s"
  shows "callbacks_loop (cmd # rest) =
     (if str_contains ''auth0 apps create'' s then
        (if str_contains ''--callbacks'' s \<and> str_contains ''--logout-urls'' s then
           Inr \<lparr>name = ''callbacks_configured'', passed = True,
                message = ''Callback and logout URLs configured'',
                details = [(''command'', JStr s)]\<rparr>
         else if str_contains ''--callbacks'' s then
           Inr \<lparr>name = ''callbacks_configured'', passed = False,
                message = ''Callback URLs configured but logout URLs missing'',
                details = []\<rparr>
         else
           Inr \<lparr>name = ''callbacks_configured'', passed = False,
                message = ''Callback URLs not configured'', details = []\<rparr>)
      else callbacks_loop rest)"
proof -
  from assms obtain d where cmd: "cmd = JObj d"
    by (cases cmd) simp_all
  with assms have "dict_get d ''command'' (JStr []) = JStr s"
    by (cases "dict_get d ''command'' (JStr [])") simp_all
  with cmd show ?thesis by simp
qed

lemma callbacks_loop_find:
  assumes "\<forall>c \<in> set cmds. command_text c \<noteq> None"
  shows "callbacks_loop cmds =
     (case find is_create cmds of
        None \<Rightarrow>
          Inr \<lparr>name = ''callbacks_configured'', passed = False,
               message = ''auth0 apps create command not found'', details = []\<rparr>
      | Some cmd \<Rightarrow>
          if has_flag ''--callbacks'' cmd \<and> has_flag ''--logout-urls'' cmd then
            Inr \<lparr>name = ''callbacks_configured'', passed = True,
                 message = ''Callback and logout URLs configured'',
                 details = [(''command'', JStr (the (command_text cmd)))]\<rparr>
          else if has_flag ''--callbacks'' cmd then
            Inr \<lparr>name = ''callbacks_configured'', passed = False,
                 message = ''Callback URLs configured but logout URLs missing'',
                 details = []\<rparr>
          else
            Inr \<lparr>name = ''callbacks_configured'', passed = False,
                 message = ''Callback URLs not configured'', details = []\<rparr>)"
  using assms
proof (induction cmds)
  case Nil
  then show ?case by simp
next
  case (Cons cmd rest)
  then obtain s where s: "command_text cmd = Some s" by auto
  from Cons have rest: "\<forall>c \<in> set rest. command_text c \<noteq> None" by simp
  have create: "is_create cmd = str_contains ''auth0 apps create'' s"
    and flag: "has_flag f cmd = str_contains f s" for f
    using s by (simp_all add: is_create_def has_flag_def)
  show ?case
    unfolding callbacks_loop_record[OF s] Cons.IH[OF rest]
    using s by (simp add: create flag)
qed

lemma callbacks_loop_plain_string:
  "callbacks_loop (JStr s # rest) = Inl AttributeError"
  by simp

text \<open>
  On the trace built in agent mode the first command is a plain string, and the check
  raises before it looks at any flag.
\<close>

lemma check_callbacks_agent_trace_raises:
  "check_callbacks_configured (agent_trace (c # cs) raw_output) = Inl AttributeError"
  by (simp add: check_callbacks_configured_def agent_trace_def)

section \<open>Properties of the report analytics\<close>

lemma foldl_update_map_of:
  "foldl (\<lambda>m r. m(test_case_id r \<mapsto> r)) m0 rows
     = m0 ++ map_of (rev (map (\<lambda>r. (test_case_id r, r)) rows))"
proof (induction rows arbitrary: m0)
  case Nil
  then show ?case by simp
next
  case (Cons a rows)
  let ?M = "map_of (rev (map (\<lambda>r. (test_case_id r, r)) rows))"
  have step: "m0(test_case_id a \<mapsto> a) ++ ?M = m0 ++ (map_of [(test_case_id a, a)] ++ ?M)"
    by (rule ext) (simp add: map_add_def split: option.splits)
  have last: "map_of [(test_case_id a, a)] ++ ?M
                = map_of (rev (map (\<lambda>r. (test_case_id r, r)) (a # rows)))"
    by (simp only: list.map rev.simps map_of_append)
  have "foldl (\<lambda>m r. m(test_case_id r \<mapsto> r)) m0 (a # rows)
          = foldl (\<lambda>m r. m(test_case_id r \<mapsto> r)) (m0(test_case_id a \<mapsto> a)) rows"
    by (simp only: foldl.simps)
  also have "\<dots> = m0(test_case_id a \<mapsto> a) ++ ?M"
    by (rule Cons.IH)
  also have "\<dots> = m0 ++ (map_of [(test_case_id a, a)] ++ ?M)"
    by (rule step)
  finally show ?case
    by (simp only: last)
qed

lemma by_test_id_map_of:
  "by_test_id rows = map_of (rev (map (\<lambda>r. (test_case_id r, r)) rows))"
  by (simp add: by_test_id_def foldl_update_map_of)

lemma by_test_id_None: "by_test_id rows tid = None \<longleftrightarrow> tid \<notin> set (map test_case_id rows)"
  by (force simp: by_test_id_map_of map_of_eq_None_iff)

lemma by_test_id_Some:
  "by_test_id rows tid = Some r \<Longrightarrow> r \<in> set rows \<and> test_case_id r = tid"
  by (auto simp: by_test_id_map_of dest!: map_of_SomeD)

lemma by_test_id_distinct:
  assumes "distinct (map test_case_id rows)" and "r \<in> set rows"
  shows "by_test_id rows (test_case_id r) = Some r"
proof -
  have "distinct (map fst (rev (map (\<lambda>r. (test_case_id r, r)) rows)))"
    using assms(1) by (simp add: rev_map[symmetric] comp_def)
  moreover have "(test_case_id r, r) \<in> set (rev (map (\<lambda>r. (test_case_id r, r)) rows))"
    using assms(2) by auto
  ultimately show ?thesis
    unfolding by_test_id_map_of by (rule map_of_is_SomeI)
qed

lemma set_map_filter_iff: "y \<in> set (List.map_filter f xs) \<longleftrightarrow> (\<exists>x \<in> set xs. f x = Some y)"
  by (induction xs) (auto split: option.splits)

lemma changes_of_iff:
  "c \<in> set (changes_of report_a report_b) \<longleftrightarrow>
     (\<exists>tid \<in> set (map test_case_id (results_of report_a))
               \<union> set (map test_case_id (results_of report_b)).
        change_for (by_test_id (results_of report_a)) (by_test_id (results_of report_b)) tid
          = Some c)"
  by (simp add: changes_of_def set_map_filter_iff test_ids_def)


lemma entry_key_entry_of: "entry_key (entry_of r) = key_of r"
  by (simp add: entry_key_def entry_of_def key_of_def)

lemma merge_loop_new:
  "map_of acc (key_of a) = None \<Longrightarrow>
     merge_loop (a # rs) acc = merge_loop rs (acc @ [(key_of a, entry_of a)])"
  by simp

lemma merge_loop_seen:
  "map_of acc (key_of a) \<noteq> None \<Longrightarrow> merge_loop (a # rs) acc = merge_loop rs acc"
  by (cases "map_of acc (key_of a)") simp_all

lemma merge_loop_set:
  "set (merge_loop rs acc)
     = set acc \<union> {(key_of r, entry_of r) | r.
                      key_of r \<notin> fst ` set acc
                      \<and> find (\<lambda>r'. key_of r' = key_of r) rs = Some r}"
proof (induction rs arbitrary: acc)
  case Nil
  then show ?case by simp
next
  case (Cons a rs)
  show ?case
  proof (cases "map_of acc (key_of a) = None")
    case True
    then have fresh: "key_of a \<notin> fst ` set acc"
      by (simp add: map_of_eq_None_iff)
    have "set (merge_loop (a # rs) acc) = set (merge_loop rs (acc @ [(key_of a, entry_of a)]))"
      by (simp only: merge_loop_new[OF True])
    also have "\<dots> = set (acc @ [(key_of a, entry_of a)])
                     \<union> {(key_of r, entry_of r) | r.
                          key_of r \<notin> fst ` set (acc @ [(key_of a, entry_of a)])
                          \<and> find (\<lambda>r'. key_of r' = key_of r) rs = Some r}"
      by (rule Cons.IH)
    also have "\<dots> = set acc \<union> {(key_of r, entry_of r) | r.
                      key_of r \<notin> fst ` set acc
                      \<and> find (\<lambda>r'. key_of r' = key_of r) (a # rs) = Some r}"
      using fresh by (auto split: if_splits)
    finally show ?thesis .
  next
    case False
    then have seen: "key_of a \<in> fst ` set acc"
      by (simp add: map_of_eq_None_iff)
    have "set (merge_loop (a # rs) acc) = set (merge_loop rs acc)"
      by (simp only: merge_loop_seen[OF False])
    also have "\<dots> = set acc \<union> {(key_of r, entry_of r) | r.
                      key_of r \<notin> fst ` set acc
                      \<and> find (\<lambda>r'. key_of r' = key_of r) rs = Some r}"
      by (rule Cons.IH)
    also have "\<dots> = set acc \<union> {(key_of r, entry_of r) | r.
                      key_of r \<notin> fst ` set acc
                      \<and> find (\<lambda>r'. key_of r' = key_of r) (a # rs) = Some r}"
    proof -
      have "(key_of r \<notin> fst ` set acc
               \<and> find (\<lambda>r'. key_of r' = key_of r) (a # rs) = Some r)
            = (key_of r \<notin> fst ` set acc
               \<and> find (\<lambda>r'. key_of r' = key_of r) rs = Some r)" for r
        using seen by (cases "key_of a = key_of r") auto
      then show ?thesis by (simp only:)
    qed
    finally show ?thesis .
  qed
qed

lemma merge_loop_keys:
  "set (map fst (merge_loop rs acc)) = set (map fst acc) \<union> set (map key_of rs)"
proof (induction rs arbitrary: acc)
  case Nil
  then show ?case by simp
next
  case (Cons a rs)
  show ?case
  proof (cases "map_of acc (key_of a) = None")
    case True
    show ?thesis
      unfolding merge_loop_new[OF True] Cons.IH[of "acc @ [(key_of a, entry_of a)]"]
      by auto
  next
    case False
    then have "key_of a \<in> fst ` set acc"
      by (simp add: map_of_eq_None_iff)
    then show ?thesis
      unfolding merge_loop_seen[OF False] Cons.IH[of acc] by auto
  qed
qed

lemma merge_loop_distinct:
  "distinct (map fst acc) \<Longrightarrow> distinct (map fst (merge_loop rs acc))"
proof (induction rs arbitrary: acc)
  case Nil
  then show ?case by simp
next
  case (Cons a rs)
  show ?case
  proof (cases "map_of acc (key_of a) = None")
    case True
    then have "key_of a \<notin> fst ` set acc"
      by (simp add: map_of_eq_None_iff)
    with Cons.prems have "distinct (map fst (acc @ [(key_of a, entry_of a)]))"
      by simp
    then show ?thesis
      unfolding merge_loop_new[OF True] by (rule Cons.IH)
  next
    case False
    show ?thesis
      unfolding merge_loop_seen[OF False] by (rule Cons.IH[OF Cons.prems])
  qed
qed

lemma merge_loop_keyed:
  "\<forall>p \<in> set acc. fst p = entry_key (snd p) \<Longrightarrow>
     \<forall>p \<in> set (merge_loop rs acc). fst p = entry_key (snd p)"
proof (induction rs arbitrary: acc)
  case Nil
  then show ?case by simp
next
  case (Cons a rs)
  show ?case
  proof (cases "map_of acc (key_of a) = None")
    case True
    from Cons.prems
    have "\<forall>p \<in> set (acc @ [(key_of a, entry_of a)]). fst p = entry_key (snd p)"
      by (simp add: entry_key_entry_of)
    then show ?thesis
      unfolding merge_loop_new[OF True] by (rule Cons.IH)
  next
    case False
    show ?thesis
      unfolding merge_loop_seen[OF False] by (rule Cons.IH[OF Cons.prems])
  qed
qed

lemma merge_loop_entry_keys:
  "map entry_key (map snd (merge_loop rs [])) = map fst (merge_loop rs [])"
  using merge_loop_keyed[of "[]" rs] by simp

lemma key_of_inj:
  assumes "mode_of r \<in> set report_modes" and "mode_of r' \<in> set report_modes"
    and "key_of r = key_of r'"
  shows "skill_of r = skill_of r' \<and> mode_of r = mode_of r'"
proof -
  from assms(3) have "rev (key_of r) = rev (key_of r')"
    by simp
  then have "rev (mode_of r) @ ''-'' @ rev (skill_of r)
               = rev (mode_of r') @ ''-'' @ rev (skill_of r')"
    by (simp add: key_of_def)
  with assms(1,2) have "mode_of r = mode_of r'"
    by (auto simp: report_modes_def)
  with assms(3) show ?thesis by (simp add: key_of_def)
qed

text \<open>
  The leaderboard in terms of the key string: one entry per key, taken from the first
  report with that key, in descending order of average score; on the documented modes
  equal keys mean equal (skill, mode) pairs.
\<close>

lemma merge_scores_leaderboard:
  "distinct (map entry_key (merge_scores reports))
   \<and> set (map entry_key (merge_scores reports)) = set (map key_of reports)
   \<and> set (merge_scores reports)
       = {entry_of r | r. find (\<lambda>r'. key_of r' = key_of r) reports = Some r}
   \<and> sorted_wrt (\<lambda>x y. avg_score x \<ge> avg_score y) (merge_scores reports)
   \<and> ((\<forall>r \<in> set reports. mode_of r \<in> set report_modes) \<longrightarrow>
        (\<forall>r \<in> set reports. \<forall>r' \<in> set reports.
           key_of r = key_of r' \<longrightarrow> skill_of r = skill_of r' \<and> mode_of r = mode_of r'))"
proof (intro conjI)
  let ?xs = "map snd (merge_loop reports [])"
  have keys: "map entry_key ?xs = map fst (merge_loop reports [])"
    by (rule merge_loop_entry_keys)
  have "distinct (map fst (merge_loop reports []))"
    by (rule merge_loop_distinct) simp
  then have "distinct (map entry_key ?xs)" by (simp only: keys)
  then have "distinct ?xs \<and> inj_on entry_key (set ?xs)"
    by (simp only: distinct_map)
  then have "distinct (sort_key (\<lambda>x. - avg_score x) ?xs)
             \<and> inj_on entry_key (set (sort_key (\<lambda>x. - avg_score x) ?xs))"
    by (simp only: distinct_sort set_sort)
  then show "distinct (map entry_key (merge_scores reports))"
    unfolding merge_scores_def by (simp only: distinct_map)
  have "set (map entry_key (merge_scores reports)) = set (map entry_key ?xs)"
    by (simp only: merge_scores_def set_map set_sort)
  also have "\<dots> = set (map key_of reports)"
    unfolding keys merge_loop_keys[of reports "[]"] by simp
  finally show "set (map entry_key (merge_scores reports)) = set (map key_of reports)" .
  have "set (merge_scores reports) = snd ` set (merge_loop reports [])"
    by (simp add: merge_scores_def)
  also have "\<dots> = {entry_of r | r. find (\<lambda>r'. key_of r' = key_of r) reports = Some r}"
    unfolding merge_loop_set[of reports "[]"] by force
  finally show "set (merge_scores reports)
       = {entry_of r | r. find (\<lambda>r'. key_of r' = key_of r) reports = Some r}" .
  have "sorted (map (\<lambda>x. - avg_score x) (merge_scores reports))"
    unfolding merge_scores_def by (rule sorted_sort_key)
  then show "sorted_wrt (\<lambda>x y. avg_score x \<ge> avg_score y) (merge_scores reports)"
    by (simp add: sorted_wrt_map)
  show "(\<forall>r \<in> set reports. mode_of r \<in> set report_modes) \<longrightarrow>
        (\<forall>r \<in> set reports. \<forall>r' \<in> set reports.
           key_of r = key_of r' \<longrightarrow> skill_of r = skill_of r' \<and> mode_of r = mode_of r')"
    using key_of_inj by blast
qed

text \<open>
  For modes outside the documented ones the key string does not determine the pair.
\<close>

lemma key_collision_outside_documented_modes:
  "(skill_of (report_named ''a-b'' ''c'' (1 / 2)), mode_of (report_named ''a-b'' ''c'' (1 / 2)))
     \<noteq> (skill_of (report_named ''a'' ''b-c'' (3 / 4)),
         mode_of (report_named ''a'' ''b-c'' (3 / 4)))
   \<and> merge_scores [report_named ''a-b'' ''c'' (1 / 2), report_named ''a'' ''b-c'' (3 / 4)]
       = [\<lparr>skill = ''a-b'', mode = ''c'', pass_rate = 1, avg_score = 1 / 2,
           total_tests = 1, timestamp = ''20250101-000000''\<rparr>]"
  by (simp add: merge_scores_def report_named_def key_of_def skill_of_def mode_of_def
        entry_of_def avg_score_of_def)

lemma find_Some_mem: "find P xs = Some x \<Longrightarrow> x \<in> set xs \<and> P x"
  by (induction xs) (auto split: if_splits)

lemma find_first_exists: "x \<in> set xs \<Longrightarrow> P x \<Longrightarrow> \<exists>y. find P xs = Some y"
  by (induction xs) auto

lemma key_of_pair:
  "skill_of r' = skill_of r \<Longrightarrow> mode_of r' = mode_of r \<Longrightarrow> key_of r' = key_of r"
  by (simp add: key_of_def)

lemma entry_of_pair:
  "skill (entry_of r) = skill_of r \<and> mode (entry_of r) = mode_of r"
  by (simp add: entry_of_def)

section \<open>Properties of the brace match\<close>

text \<open>
  \<open>json_match\<close> against the meaning of the pattern: there is no match exactly when the
  text has no opening brace with a closing brace somewhere after it, and a match is the
  block from the first opening brace to the last closing brace.
\<close>

lemma dropWhile_keeps_suffix:
  "\<not> P x \<Longrightarrow> \<exists>u. dropWhile P (p @ x # t) = u @ x # t"
proof (induction p)
  case Nil
  then show ?case by simp
next
  case (Cons a p)
  show ?case
  proof (cases "P a")
    case True
    with Cons show ?thesis by simp
  next
    case False
    then have "dropWhile P ((a # p) @ x # t) = (a # p) @ x # t" by simp
    then show ?thesis by blast
  qed
qed

lemma json_match_None_iff:
  "json_match s = None \<longleftrightarrow> \<not> (\<exists>p q r. s = p @ CHR ''{'' # q @ CHR ''}'' # r)"
proof -
  let ?fo = "dropWhile (\<lambda>c. c \<noteq> CHR ''{'') s"
  have none: "json_match s = None \<longleftrightarrow> CHR ''{'' \<notin> set s \<or> CHR ''}'' \<notin> set ?fo"
    by (auto simp: json_match_def Let_def dropWhile_eq_Nil_conv)
  show ?thesis
  proof
    assume "json_match s = None"
    with none have a: "CHR ''{'' \<notin> set s \<or> CHR ''}'' \<notin> set ?fo" by simp
    show "\<not> (\<exists>p q r. s = p @ CHR ''{'' # q @ CHR ''}'' # r)"
    proof
      assume "\<exists>p q r. s = p @ CHR ''{'' # q @ CHR ''}'' # r"
      then obtain p q r where s: "s = p @ CHR ''{'' # q @ CHR ''}'' # r" by blast
      then have "CHR ''{'' \<in> set s" by simp
      moreover obtain u where "?fo = u @ CHR ''{'' # q @ CHR ''}'' # r"
        using dropWhile_keeps_suffix[of "\<lambda>c. c \<noteq> CHR ''{''" "CHR ''{''" p "q @ CHR ''}'' # r"] s
        by auto
      then have "CHR ''}'' \<in> set ?fo" by simp
      ultimately show False using a by simp
    qed
  next
    assume no: "\<not> (\<exists>p q r. s = p @ CHR ''{'' # q @ CHR ''}'' # r)"
    show "json_match s = None"
    proof (rule ccontr)
      assume "json_match s \<noteq> None"
      with none have o: "CHR ''{'' \<in> set s" and c: "CHR ''}'' \<in> set ?fo" by auto
      from o have "?fo \<noteq> []" by (simp add: dropWhile_eq_Nil_conv)
      then obtain rest where fo: "?fo = CHR ''{'' # rest"
        using hd_dropWhile[of "\<lambda>c. c \<noteq> CHR ''{''" s] by (cases ?fo) auto
      with c have "CHR ''}'' \<in> set rest" by simp
      then obtain q r where "rest = q @ CHR ''}'' # r"
        by (auto dest: split_list)
      with fo have "s = takeWhile (\<lambda>c. c \<noteq> CHR ''{'') s @ CHR ''{'' # q @ CHR ''}'' # r"
        using takeWhile_dropWhile_id[of "\<lambda>c. c \<noteq> CHR ''{''" s] by simp
      with no show False by blast
    qed
  qed
qed

lemma json_match_Some:
  assumes "json_match s = Some m"
  shows "\<exists>p q r. s = p @ m @ r \<and> m = CHR ''{'' # q @ [CHR ''}'']
                 \<and> CHR ''{'' \<notin> set p \<and> CHR ''}'' \<notin> set r"
proof -
  let ?P = "\<lambda>c. c \<noteq> CHR ''{''" and ?Q = "\<lambda>c. c \<noteq> CHR ''}''"
  let ?fo = "dropWhile ?P s"
  let ?p = "takeWhile ?P s"
  let ?r = "rev (takeWhile ?Q (rev ?fo))"
  from assms have fo_ne: "?fo \<noteq> []" and m: "m = rev (dropWhile ?Q (rev ?fo))" and m_ne: "m \<noteq> []"
    by (auto simp: json_match_def Let_def split: if_splits)
  have "m @ ?r = rev (takeWhile ?Q (rev ?fo) @ dropWhile ?Q (rev ?fo))"
    unfolding m by (simp only: rev_append)
  also have "\<dots> = ?fo"
    by (simp only: takeWhile_dropWhile_id rev_rev_ident)
  finally have fo: "?fo = m @ ?r"
    by (rule sym)
  have s: "s = ?p @ m @ ?r"
    using takeWhile_dropWhile_id[of ?P s] fo by simp
  have p: "CHR ''{'' \<notin> set ?p"
    using set_takeWhileD[of "CHR ''{''" ?P s] by auto
  have r: "CHR ''}'' \<notin> set ?r"
    using set_takeWhileD[of "CHR ''}''" ?Q "rev ?fo"] by auto
  from fo_ne have "hd ?fo = CHR ''{''"
    using hd_dropWhile[of ?P s] by simp
  with fo m_ne have hd_m: "hd m = CHR ''{''" by (metis hd_append2)
  from m m_ne have "dropWhile ?Q (rev ?fo) \<noteq> []" by simp
  then have "hd (dropWhile ?Q (rev ?fo)) = CHR ''}''"
    using hd_dropWhile[of ?Q "rev ?fo"] by simp
  with m m_ne have last_m: "last m = CHR ''}''"
    by (simp add: last_rev)
  from m_ne hd_m obtain t where t: "m = CHR ''{'' # t" by (cases m) auto
  with last_m have "t \<noteq> []" by auto
  with t last_m obtain q where "t = q @ [CHR ''}'']"
    by (metis append_butlast_last_id last_ConsR)
  with t s p r show ?thesis by blast
qed

section \<open>The claims\<close>

text \<open>
  C1, on the result built for an exception without a message: the error field is set (to
  the empty string), the guard \<open>if self.error\<close> is false, and the case counts as passed,
  whatever the test case is. With any other message the same result fails
  (\<open>failed_with_error_text\<close>).
\<close>

theorem passed_with_empty_error_text:
  "error (error_result tc duration []) \<noteq> None
   \<and> EvalResult_passed (error_result tc duration [])"
  by (simp add: error_result_def EvalResult_passed_def truthy_error_def)

text \<open>
  C2: \<open>score\<close> is the number of passing results divided by the number of all results, it
  is 0 on the empty list, and it does not look at the test case (so not at the expected
  checks either).
\<close>

theorem EvalResult_score_fraction:
  "(grader_results r = [] \<longrightarrow> EvalResult_score r = 0)
   \<and> (grader_results r \<noteq> [] \<longrightarrow>
        EvalResult_score r
          = of_nat (length (filter passed (grader_results r)))
              / of_nat (length (grader_results r)))
   \<and> EvalResult_score (r\<lparr>test_case := tc\<rparr>) = EvalResult_score r"
  by (simp add: EvalResult_score_def sum_passing_count)

theorem EvalResult_score_fraction_witness:
  "EvalResult_score
     \<lparr>test_case = \<lparr>tc_id = ''t1'', prompt = ''add login'', scaffold = ''react'',
                    expected_checks = [''sdk_installed''], should_trigger = True,
                    tc_notes = []\<rparr>,
      grader_results =
        [\<lparr>name = ''sdk_installed'', passed = True, message = [], details = []\<rparr>,
         \<lparr>name = ''login_component'', passed = False, message = [], details = []\<rparr>,
         \<lparr>name = ''logout_component'', passed = False, message = [], details = []\<rparr>],
      duration_seconds = 0, error = None\<rparr> = 1 / 3"
  using EvalResult_score_fraction
          [of "\<lparr>test_case = \<lparr>tc_id = ''t1'', prompt = ''add login'', scaffold = ''react'',
                              expected_checks = [''sdk_installed''], should_trigger = True,
                              tc_notes = []\<rparr>,
                grader_results =
                  [\<lparr>name = ''sdk_installed'', passed = True, message = [], details = []\<rparr>,
                   \<lparr>name = ''login_component'', passed = False, message = [],
                    details = []\<rparr>,
                   \<lparr>name = ''logout_component'', passed = False, message = [],
                    details = []\<rparr>],
                duration_seconds = 0, error = None\<rparr>"]
  by simp

text \<open>
  C10: with no error and \<open>should_trigger\<close> true, a result list in which no name is an
  expected check (the empty list among them) gives \<open>passed\<close> true.
\<close>

theorem passed_when_no_expected_result:
  assumes "error r = None"
    and "should_trigger (test_case r)"
    and "\<forall>g \<in> set (grader_results r). name g \<notin> set (expected_checks (test_case r))"
  shows "EvalResult_passed r"
  using assms by (simp add: EvalResult_passed_def truthy_error_def passed_loop_iff)

text \<open>The same result has score 0: every check it holds failed.\<close>

theorem passed_when_no_expected_result_witness:
  "EvalResult_passed
     \<lparr>test_case = \<lparr>tc_id = ''t2'', prompt = ''add login'', scaffold = ''react'',
                    expected_checks = [''sdk_installed''], should_trigger = True,
                    tc_notes = []\<rparr>,
      grader_results =
        [\<lparr>name = ''unknown_skill'', passed = False,
          message = ''No graders available for skill: auth0-vue'', details = []\<rparr>],
      duration_seconds = 0, error = None\<rparr>
   \<and> EvalResult_score
       \<lparr>test_case = \<lparr>tc_id = ''t2'', prompt = ''add login'', scaffold = ''react'',
                      expected_checks = [''sdk_installed''], should_trigger = True,
                      tc_notes = []\<rparr>,
        grader_results =
          [\<lparr>name = ''unknown_skill'', passed = False,
            message = ''No graders available for skill: auth0-vue'', details = []\<rparr>],
        duration_seconds = 0, error = None\<rparr> = 0"
  using passed_when_no_expected_result
          [of "\<lparr>test_case = \<lparr>tc_id = ''t2'', prompt = ''add login'', scaffold = ''react'',
                              expected_checks = [''sdk_installed''], should_trigger = True,
                              tc_notes = []\<rparr>,
                grader_results =
                  [\<lparr>name = ''unknown_skill'', passed = False,
                    message = ''No graders available for skill: auth0-vue'',
                    details = []\<rparr>],
                duration_seconds = 0, error = None\<rparr>"]
  by (simp add: EvalResult_score_def sum_passing_def)

text \<open>
  C3, evaluated on a response without any brace: \<open>_parse_response\<close> raises \<open>ValueError\<close>,
  whatever \<open>json.loads\<close> is, instead of returning the neutral score. (A match that fails
  to parse does give the neutral score: \<open>parse_response_decode_error\<close>,
  \<open>fallback_score_neutral\<close>.)
\<close>

theorem parse_response_plain_text_raises:
  "parse_response loads ''The agent asked for consent and followed the skill.''
     = Inl (ValueError ''No JSON found in response'')"
  by (simp add: parse_response_def json_match_def)

text \<open>
  C4: whenever a response is parsed (the match is found, \<open>json.loads\<close> returns \<open>data\<close>)
  and \<open>_parse_response\<close> returns a score \<open>r\<close>, \<open>data\<close> is a dictionary and
  \<open>weighted_score r\<close> is the sum of the four dimension scores read from it, times
  0.30, 0.25, 0.25 and 0.20. No other entry of \<open>data\<close> enters the sum.
\<close>

theorem weighted_score_recomputed:
  assumes "json_match response_text = Some matched"
    and "loads matched = Inr data"
    and "parse_response loads response_text = Inr r"
  shows "\<exists>d s1 s2 s3 s4.
           data = JObj d \<and>
           dim_score d ''security_practices'' = Some s1 \<and>
           dim_score d ''user_consent'' = Some s2 \<and>
           dim_score d ''framework_alignment'' = Some s3 \<and>
           dim_score d ''instruction_following'' = Some s4 \<and>
           weighted_score r
             = s1 * (30 / 100) + s2 * (25 / 100) + s3 * (25 / 100) + s4 * (20 / 100)"
proof -
  from assms have r: "score_from_data data = Inr r"
    by (simp add: parse_response_def)
  then obtain d where d: "data = JObj d"
    using score_from_data_not_dict[of data] by auto
  from r d obtain x where x: "sum_terms (JObj d) weights 0 = Inr x"
    and w: "weighted_score r = x"
    by (auto simp: score_from_data_dict split: sum.splits)
  from sum_terms_InrD[OF x] w d show ?thesis by blast
qed

text \<open>
  On a response that scores one dimension 5 and claims a weighted score of 1, the result
  is \<open>5 * 0.30 + 3 * 0.25 + 3 * 0.25 + 3 * 0.20 = 3.6\<close>.
\<close>

theorem weighted_score_recomputed_witness:
  "json_match text_one_dim = Some text_one_dim
   \<and> (\<exists>r. parse_response loads_table text_one_dim = Inr r \<and> weighted_score r = 36 / 10)"
proof -
  obtain r where r: "parse_response loads_table text_one_dim = Inr r"
    using parse_response_one_dim_returns ..
  from weighted_score_recomputed[OF json_match_text_one_dim loads_table_one_dim r]
  have "weighted_score r = 36 / 10"
    by (simp add: dim_score_def dict_get_def float_int_limit_def)
  with r json_match_text_one_dim show ?thesis by blast
qed

text \<open>
  C9 as stated fails on a parseable object that omits three dimensions and gives the
  fourth as a bare number: \<open>data.get("user_consent", {})\<close> is 5, which has no \<open>get\<close>.
\<close>

theorem parse_response_bad_dimension_counterexample:
  "json_match text_bad_dim = Some text_bad_dim
   \<and> loads_table text_bad_dim = Inr (JObj [(''user_consent'', JInt 5)])
   \<and> map_of [(''user_consent'', JInt 5)] ''security_practices'' = None
   \<and> parse_response loads_table text_bad_dim = Inl AttributeError"
  by (simp add: parse_response_def json_match_text_bad_dim loads_table_bad_dim
        score_from_data_def weights_def weighted_term_def dict_get_def float_int_limit_def)

text \<open>
  C9, amended: for every response whose match parses to a dictionary in which each
  dimension that is present is itself a dictionary whose score, when present, is a number
  (a bool, a float, or an int inside the float range), \<open>_parse_response\<close> returns a score.
  A missing dimension is \<open>{"score": 3, "reasoning": ""}\<close> in it and adds 3 times its
  weight to \<open>weighted_score\<close>; missing \<open>overall_notes\<close> are the empty string.
\<close>

theorem missing_dimensions_default:
  assumes "json_match response_text = Some matched"
    and "loads matched = Inr (JObj d)"
    and "\<forall>dn \<in> set (map fst weights). dim_score d dn \<noteq> None"
  shows "\<exists>r s1 s2 s3 s4.
           parse_response loads response_text = Inr r \<and>
           dim_score d ''security_practices'' = Some s1 \<and>
           dim_score d ''user_consent'' = Some s2 \<and>
           dim_score d ''framework_alignment'' = Some s3 \<and>
           dim_score d ''instruction_following'' = Some s4 \<and>
           weighted_score r
             = s1 * (30 / 100) + s2 * (25 / 100) + s3 * (25 / 100) + s4 * (20 / 100) \<and>
           (map_of d ''security_practices'' = None \<longrightarrow>
              security_practices r = default_entry \<and> s1 = 3) \<and>
           (map_of d ''user_consent'' = None \<longrightarrow>
              user_consent r = default_entry \<and> s2 = 3) \<and>
           (map_of d ''framework_alignment'' = None \<longrightarrow>
              framework_alignment r = default_entry \<and> s3 = 3) \<and>
           (map_of d ''instruction_following'' = None \<longrightarrow>
              instruction_following r = default_entry \<and> s4 = 3) \<and>
           (map_of d ''overall_notes'' = None \<longrightarrow> overall_notes r = JStr [])"
proof -
  from assms(3) obtain s1 s2 s3 s4 where s:
    "dim_score d ''security_practices'' = Some s1"
    "dim_score d ''user_consent'' = Some s2"
    "dim_score d ''framework_alignment'' = Some s3"
    "dim_score d ''instruction_following'' = Some s4"
    by (auto simp: weights_def)
  let ?r = "\<lparr>security_practices = dict_get d ''security_practices'' default_entry,
             user_consent = dict_get d ''user_consent'' default_entry,
             framework_alignment = dict_get d ''framework_alignment'' default_entry,
             instruction_following = dict_get d ''instruction_following'' default_entry,
             overall_notes = dict_get d ''overall_notes'' (JStr []),
             weighted_score
               = s1 * (30 / 100) + s2 * (25 / 100) + s3 * (25 / 100) + s4 * (20 / 100)\<rparr>"
  have ret: "parse_response loads response_text = Inr ?r"
    using assms(1,2) by (simp add: parse_response_def score_from_data_dict sum_terms_Some[OF s])
  have missing: "map_of d dn = None \<Longrightarrow> dim_score d dn = Some 3" for dn
    by (simp add: dim_score_def)
  show ?thesis
    apply (rule exI[of _ ?r], rule exI[of _ s1], rule exI[of _ s2],
           rule exI[of _ s3], rule exI[of _ s4])
    using ret s missing[of "''security_practices''"] missing[of "''user_consent''"]
      missing[of "''framework_alignment''"] missing[of "''instruction_following''"]
    by (simp add: dict_get_def)
qed

theorem missing_dimensions_default_witness:
  "\<exists>r. parse_response loads_table text_one_dim = Inr r
       \<and> user_consent r = JObj [(''score'', JInt 3), (''reasoning'', JStr [])]
       \<and> framework_alignment r = JObj [(''score'', JInt 3), (''reasoning'', JStr [])]
       \<and> instruction_following r = JObj [(''score'', JInt 3), (''reasoning'', JStr [])]
       \<and> overall_notes r = JStr []
       \<and> weighted_score r = 5 * (30 / 100) + 3 * (25 / 100) + 3 * (25 / 100) + 3 * (20 / 100)"
proof -
  have wf: "\<forall>dn \<in> set (map fst weights).
              dim_score [(''security_practices'',
                           JObj [(''score'', JInt 5), (''reasoning'', JStr ''ok'')]),
                         (''weighted_score'', JInt 1)] dn \<noteq> None"
    by (simp add: weights_def dim_score_def dict_get_def float_int_limit_def)
  from missing_dimensions_default[where loads = loads_table,
         OF json_match_text_one_dim loads_table_one_dim wf]
  show ?thesis
    by (auto simp: dim_score_def dict_get_def float_int_limit_def default_entry_def)
qed

text \<open>
  C5 as stated fails when the one flag carried is \<open>--logout-urls\<close>: the last branch of the
  check answers for "logout only" and for "neither flag" with the same message.
\<close>

theorem callbacks_logout_only_counterexample:
  "is_create (JObj [(''command'',
       JStr ''auth0 apps create --name app --logout-urls http://localhost:3000'')])
   \<and> has_flag ''--logout-urls'' (JObj [(''command'',
       JStr ''auth0 apps create --name app --logout-urls http://localhost:3000'')])
   \<and> \<not> has_flag ''--callbacks'' (JObj [(''command'',
       JStr ''auth0 apps create --name app --logout-urls http://localhost:3000'')])
   \<and> \<not> has_flag ''--logout-urls'' (JObj [(''command'', JStr ''auth0 apps create --name app'')])
   \<and> \<not> has_flag ''--callbacks'' (JObj [(''command'', JStr ''auth0 apps create --name app'')])
   \<and> check_callbacks_configured
         (trace_of [''auth0 apps create --name app --logout-urls http://localhost:3000''])
       = Inr \<lparr>name = ''callbacks_configured'', passed = False,
              message = ''Callback URLs not configured'', details = []\<rparr>
   \<and> check_callbacks_configured (trace_of [''auth0 apps create --name app''])
       = Inr \<lparr>name = ''callbacks_configured'', passed = False,
              message = ''Callback URLs not configured'', details = []\<rparr>"
  by (simp add: is_create_def has_flag_def dict_get_def
        check_callbacks_configured_def trace_of_def)

text \<open>
  C5, amended: on traces whose commands are records (dictionaries with a string under
  \<open>"command"\<close>, or with no such entry), when the first command containing
  \<open>auth0 apps create\<close> carries exactly one of the two flags, the check returns a failed
  result; and when that flag is \<open>--callbacks\<close>, its message differs from the message
  returned for a trace whose first creation command carries neither flag (which fails as
  well).
\<close>

theorem callbacks_partial_flags:
  assumes "\<forall>c \<in> set (commands trace). command_text c \<noteq> None"
    and "\<forall>c \<in> set (commands trace'). command_text c \<noteq> None"
    and "find is_create (commands trace) = Some cmd"
    and "has_flag ''--callbacks'' cmd \<noteq> has_flag ''--logout-urls'' cmd"
    and "find is_create (commands trace') = Some cmd'"
    and "\<not> has_flag ''--callbacks'' cmd'"
    and "\<not> has_flag ''--logout-urls'' cmd'"
  shows "\<exists>res res'.
           check_callbacks_configured trace = Inr res
           \<and> check_callbacks_configured trace' = Inr res'
           \<and> \<not> passed res \<and> \<not> passed res'
           \<and> (has_flag ''--callbacks'' cmd \<longrightarrow> message res \<noteq> message res')"
  using assms(3-7)
  by (auto simp: check_callbacks_configured_def
        callbacks_loop_find[OF assms(1)] callbacks_loop_find[OF assms(2)])

theorem callbacks_partial_flags_witness:
  "\<exists>res res'.
     check_callbacks_configured
       (trace_of [''cat package.json'',
                  ''auth0 apps create --name app --callbacks http://localhost:3000''])
       = Inr res
     \<and> check_callbacks_configured (trace_of [''auth0 apps create --name app'']) = Inr res'
     \<and> \<not> passed res \<and> \<not> passed res' \<and> message res \<noteq> message res'"
proof -
  have r: "\<forall>c \<in> set (commands (trace_of [''cat package.json'',
                   ''auth0 apps create --name app --callbacks http://localhost:3000''])).
             command_text c \<noteq> None"
    by (simp add: trace_of_def dict_get_def)
  have r': "\<forall>c \<in> set (commands (trace_of [''auth0 apps create --name app''])).
              command_text c \<noteq> None"
    by (simp add: trace_of_def dict_get_def)
  have a: "find is_create (commands (trace_of [''cat package.json'',
                   ''auth0 apps create --name app --callbacks http://localhost:3000'']))
           = Some (JObj [(''command'',
               JStr ''auth0 apps create --name app --callbacks http://localhost:3000'')])"
    by (simp add: trace_of_def is_create_def dict_get_def)
  have b: "has_flag ''--callbacks'' (JObj [(''command'',
               JStr ''auth0 apps create --name app --callbacks http://localhost:3000'')])
           \<noteq> has_flag ''--logout-urls'' (JObj [(''command'',
               JStr ''auth0 apps create --name app --callbacks http://localhost:3000'')])"
    by (simp add: has_flag_def dict_get_def)
  have c: "find is_create (commands (trace_of [''auth0 apps create --name app'']))
           = Some (JObj [(''command'', JStr ''auth0 apps create --name app'')])"
    by (simp add: trace_of_def is_create_def dict_get_def)
  have d: "\<not> has_flag ''--callbacks'' (JObj [(''command'', JStr ''auth0 apps create --name app'')])"
    by (simp add: has_flag_def dict_get_def)
  have e: "\<not> has_flag ''--logout-urls''
               (JObj [(''command'', JStr ''auth0 apps create --name app'')])"
    by (simp add: has_flag_def dict_get_def)
  have f: "has_flag ''--callbacks'' (JObj [(''command'',
               JStr ''auth0 apps create --name app --callbacks http://localhost:3000'')])"
    by (simp add: has_flag_def dict_get_def)
  from callbacks_partial_flags[OF r r' a b c d e] f show ?thesis by simp
qed

text \<open>
  C6: for every test-case id of either report, with "passed" and "score" read as the code
  reads them (the row stored under the id, \<open>False\<close> and 0 where the id has no row): failed
  in A and passed in B gives an entry \<open>improved\<close>; passed in A and failed in B gives
  \<open>regressed\<close>; equal pass/fail with a score difference above 0.1 gives \<open>score_change\<close>;
  and an id without a row in one report counts there as not passed with score 0.
\<close>

theorem compare_reports_changes:
  assumes "tid \<in> set (map test_case_id (results_of report_a))
                 \<union> set (map test_case_id (results_of report_b))"
  shows "(\<not> passed_in (by_test_id (results_of report_a)) tid
            \<and> passed_in (by_test_id (results_of report_b)) tid \<longrightarrow>
          \<lparr>change_test_case_id = tid, was_passing = False, now_passing = True,
           score_delta = score_in (by_test_id (results_of report_b)) tid
                           - score_in (by_test_id (results_of report_a)) tid,
           change = ''improved''\<rparr> \<in> set (changes (compare_reports report_a report_b)))
       \<and> (passed_in (by_test_id (results_of report_a)) tid
            \<and> \<not> passed_in (by_test_id (results_of report_b)) tid \<longrightarrow>
          \<lparr>change_test_case_id = tid, was_passing = True, now_passing = False,
           score_delta = score_in (by_test_id (results_of report_b)) tid
                           - score_in (by_test_id (results_of report_a)) tid,
           change = ''regressed''\<rparr> \<in> set (changes (compare_reports report_a report_b)))
       \<and> (passed_in (by_test_id (results_of report_a)) tid
              = passed_in (by_test_id (results_of report_b)) tid
            \<and> \<bar>score_in (by_test_id (results_of report_a)) tid
                 - score_in (by_test_id (results_of report_b)) tid\<bar> > 1 / 10 \<longrightarrow>
          \<lparr>change_test_case_id = tid,
           was_passing = passed_in (by_test_id (results_of report_a)) tid,
           now_passing = passed_in (by_test_id (results_of report_b)) tid,
           score_delta = score_in (by_test_id (results_of report_b)) tid
                           - score_in (by_test_id (results_of report_a)) tid,
           change = ''score_change''\<rparr> \<in> set (changes (compare_reports report_a report_b)))
       \<and> (tid \<notin> set (map test_case_id (results_of report_a)) \<longrightarrow>
            \<not> passed_in (by_test_id (results_of report_a)) tid
            \<and> score_in (by_test_id (results_of report_a)) tid = 0)
       \<and> (tid \<notin> set (map test_case_id (results_of report_b)) \<longrightarrow>
            \<not> passed_in (by_test_id (results_of report_b)) tid
            \<and> score_in (by_test_id (results_of report_b)) tid = 0)"
proof -
  let ?a = "by_test_id (results_of report_a)" and ?b = "by_test_id (results_of report_b)"
  have mem: "change_for ?a ?b tid = Some c \<Longrightarrow>
               c \<in> set (changes (compare_reports report_a report_b))" for c
    using assms by (auto simp: compare_reports_def changes_of_iff)
  have absent: "tid \<notin> set (map test_case_id rows) \<Longrightarrow>
                  \<not> passed_in (by_test_id rows) tid \<and> score_in (by_test_id rows) tid = 0"
    for rows
    using by_test_id_None[of rows tid] by (simp add: passed_in_def score_in_def)
  show ?thesis
  proof (intro conjI impI)
    assume "\<not> passed_in ?a tid \<and> passed_in ?b tid"
    then show "\<lparr>change_test_case_id = tid, was_passing = False, now_passing = True,
           score_delta = score_in ?b tid - score_in ?a tid,
           change = ''improved''\<rparr> \<in> set (changes (compare_reports report_a report_b))"
      by (intro mem) (simp add: change_for_def Let_def)
  next
    assume "passed_in ?a tid \<and> \<not> passed_in ?b tid"
    then show "\<lparr>change_test_case_id = tid, was_passing = True, now_passing = False,
           score_delta = score_in ?b tid - score_in ?a tid,
           change = ''regressed''\<rparr> \<in> set (changes (compare_reports report_a report_b))"
      by (intro mem) (simp add: change_for_def Let_def)
  next
    assume "passed_in ?a tid = passed_in ?b tid
            \<and> \<bar>score_in ?a tid - score_in ?b tid\<bar> > 1 / 10"
    then show "\<lparr>change_test_case_id = tid,
           was_passing = passed_in ?a tid, now_passing = passed_in ?b tid,
           score_delta = score_in ?b tid - score_in ?a tid,
           change = ''score_change''\<rparr> \<in> set (changes (compare_reports report_a report_b))"
      by (intro mem) (simp add: change_for_def Let_def)
  qed (use absent in blast)+
qed


theorem compare_reports_changes_witness:
  "\<lparr>change_test_case_id = ''t1'', was_passing = False, now_passing = True,
    score_delta = 1 / 2, change = ''improved''\<rparr>
     \<in> set (changes (compare_reports
          (report_of_rows
            [\<lparr>test_case_id = ''t1'', row_passed = Some False, row_score = Some (1 / 2)\<rparr>])
          (report_of_rows
            [\<lparr>test_case_id = ''t1'', row_passed = Some True, row_score = Some 1\<rparr>,
             \<lparr>test_case_id = ''t2'', row_passed = Some True, row_score = Some 1\<rparr>])))
   \<and> \<lparr>change_test_case_id = ''t2'', was_passing = False, now_passing = True,
      score_delta = 1, change = ''improved''\<rparr>
     \<in> set (changes (compare_reports
          (report_of_rows
            [\<lparr>test_case_id = ''t1'', row_passed = Some False, row_score = Some (1 / 2)\<rparr>])
          (report_of_rows
            [\<lparr>test_case_id = ''t1'', row_passed = Some True, row_score = Some 1\<rparr>,
             \<lparr>test_case_id = ''t2'', row_passed = Some True, row_score = Some 1\<rparr>])))"
  using compare_reports_changes
          [of "''t1''"
              "report_of_rows
                 [\<lparr>test_case_id = ''t1'', row_passed = Some False, row_score = Some (1 / 2)\<rparr>]"
              "report_of_rows
                 [\<lparr>test_case_id = ''t1'', row_passed = Some True, row_score = Some 1\<rparr>,
                  \<lparr>test_case_id = ''t2'', row_passed = Some True, row_score = Some 1\<rparr>]"]
        compare_reports_changes
          [of "''t2''"
              "report_of_rows
                 [\<lparr>test_case_id = ''t1'', row_passed = Some False, row_score = Some (1 / 2)\<rparr>]"
              "report_of_rows
                 [\<lparr>test_case_id = ''t1'', row_passed = Some True, row_score = Some 1\<rparr>,
                  \<lparr>test_case_id = ''t2'', row_passed = Some True, row_score = Some 1\<rparr>]"]
  by (simp add: report_of_rows_def results_of_def by_test_id_def passed_in_def score_in_def)

text \<open>
  C7: for persisted reports, whose mode is one of \<open>dry-run\<close>, \<open>baseline\<close>, \<open>agent\<close>, the
  leaderboard has exactly one entry for each distinct (skill, mode) pair of the input; the
  entry of a pair is the one of the first report with that pair; and the leaderboard is
  sorted by average score, descending.
\<close>

theorem merge_scores_one_entry_per_pair:
  assumes "\<forall>r \<in> set reports. mode_of r \<in> set report_modes"
  shows "distinct (map (\<lambda>e. (skill e, mode e)) (merge_scores reports))
   \<and> set (map (\<lambda>e. (skill e, mode e)) (merge_scores reports))
       = set (map (\<lambda>r. (skill_of r, mode_of r)) reports)
   \<and> set (merge_scores reports)
       = {entry_of r | r.
            find (\<lambda>r'. skill_of r' = skill_of r \<and> mode_of r' = mode_of r) reports = Some r}
   \<and> sorted_wrt (\<lambda>x y. avg_score x \<ge> avg_score y) (merge_scores reports)"
proof (intro conjI)
  note lb = merge_scores_leaderboard[of reports]
  have same: "key_of r' = key_of r \<longleftrightarrow> skill_of r' = skill_of r \<and> mode_of r' = mode_of r"
    if "r \<in> set reports" and "r' \<in> set reports" for r r'
    using that assms key_of_inj[of r' r] key_of_pair[of r' r] by blast
  have first: "find (\<lambda>r'. key_of r' = key_of r) reports = Some r \<longleftrightarrow>
               find (\<lambda>r'. skill_of r' = skill_of r \<and> mode_of r' = mode_of r) reports = Some r"
    for r
  proof (cases "r \<in> set reports")
    case True
    have "find (\<lambda>r'. key_of r' = key_of r) reports
            = find (\<lambda>r'. skill_of r' = skill_of r \<and> mode_of r' = mode_of r) reports"
      by (rule find_cong) (use True same in auto)
    then show ?thesis by simp
  next
    case False
    then show ?thesis using find_Some_mem by fastforce
  qed
  from lb have entries: "set (merge_scores reports)
       = {entry_of r | r. find (\<lambda>r'. key_of r' = key_of r) reports = Some r}"
    by blast
  then show "set (merge_scores reports)
       = {entry_of r | r.
            find (\<lambda>r'. skill_of r' = skill_of r \<and> mode_of r' = mode_of r) reports = Some r}"
    by (simp only: first)
  from lb show "sorted_wrt (\<lambda>x y. avg_score x \<ge> avg_score y) (merge_scores reports)"
    by blast
  from lb have dk: "distinct (map entry_key (merge_scores reports))" by blast
  have "inj_on (\<lambda>e. (skill e, mode e)) (set (merge_scores reports))"
  proof (rule inj_onI)
    fix e e'
    assume e: "e \<in> set (merge_scores reports)" and e': "e' \<in> set (merge_scores reports)"
      and eq: "(skill e, mode e) = (skill e', mode e')"
    then have "entry_key e = entry_key e'" by (simp add: entry_key_def)
    with dk e e' show "e = e'"
      by (simp add: distinct_map inj_on_def)
  qed
  moreover from dk have "distinct (merge_scores reports)"
    by (simp add: distinct_map)
  ultimately show "distinct (map (\<lambda>e. (skill e, mode e)) (merge_scores reports))"
    by (simp add: distinct_map)
  show "set (map (\<lambda>e. (skill e, mode e)) (merge_scores reports))
       = set (map (\<lambda>r. (skill_of r, mode_of r)) reports)"
  proof (intro set_eqI iffI)
    fix p
    assume "p \<in> set (map (\<lambda>e. (skill e, mode e)) (merge_scores reports))"
    then obtain e where "e \<in> set (merge_scores reports)" and pe: "p = (skill e, mode e)"
      by auto
    then have "e \<in> {entry_of r | r. find (\<lambda>r'. key_of r' = key_of r) reports = Some r}"
      by (simp only: entries)
    with pe obtain r where "find (\<lambda>r'. key_of r' = key_of r) reports = Some r"
      and "p = (skill (entry_of r), mode (entry_of r))"
      by blast
    then show "p \<in> set (map (\<lambda>r. (skill_of r, mode_of r)) reports)"
      using find_Some_mem[of "\<lambda>r'. key_of r' = key_of r" reports r]
      by (auto simp: entry_of_pair)
  next
    fix p
    assume "p \<in> set (map (\<lambda>r. (skill_of r, mode_of r)) reports)"
    then obtain r where r: "r \<in> set reports" and p: "p = (skill_of r, mode_of r)"
      by auto
    then obtain r0 where r0: "find (\<lambda>r'. key_of r' = key_of r) reports = Some r0"
      using find_first_exists[of r reports "\<lambda>r'. key_of r' = key_of r"] by auto
    then have mem: "r0 \<in> set reports" and k: "key_of r0 = key_of r"
      using find_Some_mem[of "\<lambda>r'. key_of r' = key_of r" reports r0] by auto
    from r0 k have "find (\<lambda>r'. key_of r' = key_of r0) reports = Some r0" by simp
    then have "entry_of r0 \<in> set (merge_scores reports)"
      unfolding entries by blast
    moreover from same[OF r mem] k have "skill_of r0 = skill_of r \<and> mode_of r0 = mode_of r"
      by simp
    ultimately show "p \<in> set (map (\<lambda>e. (skill e, mode e)) (merge_scores reports))"
      using p by (force simp: entry_of_pair)
  qed
qed

text \<open>
  Three reports, the first and the last for the same pair: the last one is dropped, and
  the higher average comes first.
\<close>

theorem merge_scores_one_entry_per_pair_witness:
  "map (\<lambda>e. (skill e, mode e))
     (merge_scores [report_named ''auth0-react'' ''dry-run'' (1 / 2),
                    report_named ''auth0-quickstart'' ''agent'' (3 / 4),
                    report_named ''auth0-react'' ''dry-run'' (9 / 10)])
     = [(''auth0-quickstart'', ''agent''), (''auth0-react'', ''dry-run'')]
   \<and> map avg_score
     (merge_scores [report_named ''auth0-react'' ''dry-run'' (1 / 2),
                    report_named ''auth0-quickstart'' ''agent'' (3 / 4),
                    report_named ''auth0-react'' ''dry-run'' (9 / 10)])
     = [3 / 4, 1 / 2]"
proof -
  have modes: "\<forall>r \<in> set [report_named ''auth0-react'' ''dry-run'' (1 / 2),
                            report_named ''auth0-quickstart'' ''agent'' (3 / 4),
                            report_named ''auth0-react'' ''dry-run'' (9 / 10)].
                 mode_of r \<in> set report_modes"
    by (simp add: report_named_def mode_of_def report_modes_def)
  from merge_scores_one_entry_per_pair[OF modes] show ?thesis
    by (simp add: merge_scores_def report_named_def key_of_def skill_of_def mode_of_def
          entry_of_def avg_score_of_def)
qed

end
